theory Spec2Isabelle
  imports Complex_Main "HOL-Library.Log_Nat" "HOL-Library.AList"
begin

section \<open>Python values and exceptions\<close>

text \<open>
  The exceptions the modelled functions can raise. A computation that may raise returns
  \<open>error + 'a\<close>, with \<open>Inl\<close> for the exception. \<open>FloatOfStr s\<close> stands for the call
  \<open>float(s)\<close> on a string \<open>s\<close>: Python parses the string there (giving a float or a
  ValueError); that parser is outside this development, so the call is reported as this outcome.
  Opening and reading a file can raise PermissionError or IsADirectoryError (from \<open>open\<close>),
  and \<open>json.load\<close> can raise JSONDecodeError (text that is not JSON), UnicodeDecodeError
  (bytes that are not text), RecursionError (nesting too deep) or ValueError (an integer
  literal of more than 4300 digits).
\<close>

datatype error =
    ValueError
  | IndexError
  | KeyError string
  | TypeError
  | OverflowError
  | AttributeError
  | JSONDecodeError
  | UnicodeDecodeError
  | RecursionError
  | PermissionError
  | IsADirectoryError
  | FloatOfStr string

section \<open>Quarter codec: \<open>generate_quarters\<close> and its helper \<open>quarter_to_date\<close>\<close>

text \<open>
  Strings are lists of \<open>char\<close>; a \<open>char\<close> stands for the code point of the same number, so
  the model covers Python strings over code points 0..255.

  \<open>is_space\<close>: the characters that \<open>int(str)\<close> skips at both ends (tab, LF, VT, FF, CR, space,
  NEL, NBSP). \<open>is_digit\<close>: the decimal digits in this range.
\<close>

definition is_space :: "char \<Rightarrow> bool" where
  "is_space c = (of_char c \<in> {9, 10, 11, 12, 13, 32, 133, 160 :: nat})"

definition is_digit :: "char \<Rightarrow> bool" where
  "is_digit c = (48 \<le> (of_char c :: nat) \<and> (of_char c :: nat) \<le> 57)"

definition digit_val :: "char \<Rightarrow> int" where
  "digit_val c = int (of_char c) - 48"

text \<open>
  The digits of a base-10 integer literal after its first digit: digits, with single
  underscores allowed between two digits.
\<close>

fun scan_digits :: "int \<Rightarrow> string \<Rightarrow> int option" where
  "scan_digits acc [] = Some acc"
| "scan_digits acc (c # cs) =
     (if is_digit c then scan_digits (10 * acc + digit_val c) cs
      else if c = CHR ''_'' then
        (case cs of
           [] \<Rightarrow> None
         | d # ds \<Rightarrow> if is_digit d then scan_digits (10 * acc + digit_val d) ds else None)
      else None)"

definition parse_digits :: "string \<Rightarrow> int option" where
  "parse_digits s =
     (case s of
        [] \<Rightarrow> None
      | c # cs \<Rightarrow> if is_digit c then scan_digits (digit_val c) cs else None)"

definition strip :: "string \<Rightarrow> string" where
  "strip s = rev (dropWhile is_space (rev (dropWhile is_space s)))"

text \<open>Python's \<open>int(s)\<close> for a string \<open>s\<close> (base 10): surrounding whitespace, an optional sign,
  then the digits; anything else raises ValueError.\<close>

definition py_int :: "string \<Rightarrow> error + int" where
  "py_int s =
     (case strip s of
        [] \<Rightarrow> Inl ValueError
      | c # cs \<Rightarrow>
          if c = CHR ''+'' then
            (case parse_digits cs of None \<Rightarrow> Inl ValueError | Some n \<Rightarrow> Inr n)
          else if c = CHR ''-'' then
            (case parse_digits cs of None \<Rightarrow> Inl ValueError | Some n \<Rightarrow> Inr (- n))
          else
            (case parse_digits (c # cs) of None \<Rightarrow> Inl ValueError | Some n \<Rightarrow> Inr n))"

text \<open>\<open>str(n)\<close> for an integer, as the f-string \<open>f"{year}Q{quarter}"\<close> formats its fields.\<close>

definition digit_char :: "nat \<Rightarrow> char" where
  "digit_char d = ''0123456789'' ! d"

fun digits_of :: "nat \<Rightarrow> string" where
  "digits_of n = (if n < 10 then [digit_char n] else digits_of (n div 10) @ [digit_char (n mod 10)])"

declare digits_of.simps [simp del]

definition py_str_int :: "int \<Rightarrow> string" where
  "py_str_int i = (if i < 0 then CHR ''-'' # digits_of (nat (- i)) else digits_of (nat i))"

text \<open>
  \<open>datetime(year, month, 1)\<close>: the code only builds first-of-month dates at midnight, so a
  date is its year and month. The constructor raises ValueError unless the year is in
  1..9999 (MINYEAR..MAXYEAR) and the month in 1..12. Dates compare by year, then month.
\<close>

datatype datetime = Datetime (dt_year: int) (dt_month: int)

definition datetime_first :: "int \<Rightarrow> int \<Rightarrow> error + datetime" where
  "datetime_first y m =
     (if y < 1 \<or> 9999 < y then Inl ValueError
      else if m < 1 \<or> 12 < m then Inl ValueError
      else Inr (Datetime y m))"

definition dt_le :: "datetime \<Rightarrow> datetime \<Rightarrow> bool" where
  "dt_le a b = (dt_year a < dt_year b \<or> (dt_year a = dt_year b \<and> dt_month a \<le> dt_month b))"

text \<open>
  \<open>quarter_to_date\<close>: \<open>year = int(quarter_str[:4])\<close>, \<open>quarter = int(quarter_str[5])\<close>,
  \<open>month = (quarter - 1) * 3 + 1\<close>, \<open>datetime(year, month, 1)\<close>. The slice never raises; the
  index raises IndexError on a string of fewer than six characters.
\<close>

definition quarter_to_date :: "string \<Rightarrow> error + datetime" where
  "quarter_to_date quarter_str =
     (case py_int (take 4 quarter_str) of
        Inl e \<Rightarrow> Inl e
      | Inr year \<Rightarrow>
          if length quarter_str \<le> 5 then Inl IndexError
          else
            (case py_int [quarter_str ! 5] of
               Inl e \<Rightarrow> Inl e
             | Inr quarter \<Rightarrow> datetime_first year ((quarter - 1) * 3 + 1)))"

text \<open>The next value of \<open>current_date\<close> in the loop of \<open>generate_quarters\<close>.\<close>

definition next_date :: "datetime \<Rightarrow> error + datetime" where
  "next_date d =
     (if dt_month d \<ge> 10 then datetime_first (dt_year d + 1) 1
      else datetime_first (dt_year d) (dt_month d + 3))"

definition quarter_label :: "datetime \<Rightarrow> string" where
  "quarter_label d = py_str_int (dt_year d) @ ''Q'' @ py_str_int ((dt_month d - 1) div 3 + 1)"

function quarters_loop :: "datetime \<Rightarrow> datetime \<Rightarrow> string list \<Rightarrow> error + string list" where
  "quarters_loop current_date end_date quarters =
     (if dt_le current_date end_date then
        (case next_date current_date of
           Inl e \<Rightarrow> Inl e
         | Inr d \<Rightarrow> quarters_loop d end_date (quarters @ [quarter_label current_date]))
      else Inr quarters)"
  by pat_completeness auto
termination
proof (relation "measures [\<lambda>(c, e, q). nat (dt_year e - dt_year c + 1),
                          \<lambda>(c, e, q). nat (13 - dt_month c)]", goal_cases)
  case 1
  show ?case by simp
next
  case (2 c e q d)
  then show ?case
    by (cases c; cases e)
       (auto simp: next_date_def datetime_first_def dt_le_def split: if_splits)
qed

declare quarters_loop.simps [simp del]

definition generate_quarters :: "string \<Rightarrow> string \<Rightarrow> error + string list" where
  "generate_quarters start end =
     (case quarter_to_date start of
        Inl e \<Rightarrow> Inl e
      | Inr start_date \<Rightarrow>
          (case quarter_to_date end of
             Inl e \<Rightarrow> Inl e
           | Inr end_date \<Rightarrow> quarters_loop start_date end_date []))"

text \<open>
  The callers accept a label when \<open>re.match(r"^\d{4}Q[1-4]$", label)\<close> succeeds: four
  digits, \<open>Q\<close>, a digit from 1 to 4, and then the end of the string or one final newline
  (which \<open>$\<close> lets through). For such a label, \<open>label_year\<close> and \<open>label_quarter\<close> are
  the numbers its characters spell, \<open>quarter_index\<close> counts its quarter from quarter 1 of
  year 0, and \<open>quarter_distance\<close> is the number of quarters from one label to another.
  \<open>index_label\<close> is the label that the loop prints for a quarter, and \<open>date_index\<close> the
  quarter of a first-of-quarter date (\<open>quarter_start\<close>).
\<close>

definition digits_value :: "string \<Rightarrow> int" where
  "digits_value s = foldl (\<lambda>a c. 10 * a + digit_val c) 0 s"

definition re_match_label :: "string \<Rightarrow> bool" where
  "re_match_label s =
     (let t = (if length s = 7 \<and> s ! 6 = CHR 0x0A then take 6 s else s)
      in length t = 6 \<and> list_all is_digit (take 4 t) \<and> t ! 4 = CHR ''Q'' \<and>
         t ! 5 \<in> set ''1234'')"

definition label_year :: "string \<Rightarrow> int" where
  "label_year s = digits_value (take 4 s)"

definition label_quarter :: "string \<Rightarrow> int" where
  "label_quarter s = digit_val (s ! 5)"

definition quarter_index :: "string \<Rightarrow> int" where
  "quarter_index s = 4 * label_year s + (label_quarter s - 1)"

definition quarter_distance :: "string \<Rightarrow> string \<Rightarrow> int" where
  "quarter_distance start end = quarter_index end - quarter_index start"

definition index_label :: "int \<Rightarrow> string" where
  "index_label i = py_str_int (i div 4) @ ''Q'' @ py_str_int (i mod 4 + 1)"

definition date_index :: "datetime \<Rightarrow> int" where
  "date_index d = 4 * dt_year d + (dt_month d - 1) div 3"

definition quarter_start :: "datetime \<Rightarrow> bool" where
  "quarter_start d = (dt_month d \<in> {1, 4, 7, 10})"

section \<open>JSON documents as Python values\<close>

text \<open>
  \<open>json.load\<close> returns \<open>None\<close>, booleans, integers (unbounded), floats, strings, lists and
  dictionaries with string keys. A float is a finite number, an infinity or NaN (\<open>json.load\<close>
  reads the constants \<open>NaN\<close>, \<open>Infinity\<close> and \<open>-Infinity\<close>). A finite float is represented by
  its exact value, so \<open>0.0\<close> and \<open>-0.0\<close>, which Python compares equal, are one value.
  A NaN carries the identity of its object: lists and dictionaries compare two elements
  that are the same object as equal, and NaN is the one value that is not equal to itself.
  (\<open>json.load\<close> returns the same NaN object for every \<open>NaN\<close> it reads; \<open>float('nan')\<close> makes
  a new one.)
  A dictionary is the list of its items in insertion order; \<open>map_of\<close> looks a key up, so in
  a list that names a key twice the first item is the one that counts.
\<close>

datatype pyfloat = Finite rat | PosInf | NegInf | NaN nat

datatype pyval =
    PNone
  | PBool bool
  | PInt int
  | PFloat pyfloat
  | PStr string
  | PList "pyval list"
  | PDict "(string \<times> pyval) list"

type_synonym pydict = "(string \<times> pyval) list"

text \<open>A record of a specification file, with the four fields of the file's schema.\<close>

definition variable_record :: "string \<Rightarrow> string \<Rightarrow> pyval \<Rightarrow> pyval \<Rightarrow> pyval" where
  "variable_record category method input quarters =
     PDict [(''category'', PStr category), (''method'', PStr method), (''input'', input),
            (''quarters'', quarters)]"

subsection \<open>Equality\<close>

text \<open>
  \<open>==\<close> on floats: NaN equals nothing, itself included. An integer or boolean and a float
  are compared by their exact values, without rounding (\<open>2**53 + 1 == float(2**53)\<close> is
  false), so the number seen by \<open>==\<close> is the exact value of either.
\<close>

definition is_nan :: "pyfloat \<Rightarrow> bool" where
  "is_nan f = (case f of NaN i \<Rightarrow> True | _ \<Rightarrow> False)"

definition float_eq :: "pyfloat \<Rightarrow> pyfloat \<Rightarrow> bool" where
  "float_eq a b = (\<not> is_nan a \<and> \<not> is_nan b \<and> a = b)"

fun number_of :: "pyval \<Rightarrow> pyfloat option" where
  "number_of (PBool b) = Some (Finite (if b then 1 else 0))"
| "number_of (PInt i) = Some (Finite (of_int i))"
| "number_of (PFloat f) = Some f"
| "number_of _ = None"

text \<open>
  Lists and dictionaries compare their elements with \<open>x is y or x == y\<close>. Two values that
  are the same object are equal under \<open>==\<close> as well, unless the object is a NaN: so the
  identity test decides only for NaN, where it compares the identities.
\<close>

fun same_nan :: "pyval \<Rightarrow> pyval \<Rightarrow> bool" where
  "same_nan (PFloat (NaN i)) (PFloat (NaN j)) = (i = j)"
| "same_nan a b = False"

text \<open>
  \<open>a == b\<close> on JSON values: numbers by value, strings and \<open>None\<close> by content, lists
  element by element in order, dictionaries by equal size and equal values under each key
  of the left one; values of different kinds are unequal. \<open>py_eq_items\<close> goes through the
  items of the left dictionary and skips an item whose key it has seen.
\<close>

fun py_eq :: "pyval \<Rightarrow> pyval \<Rightarrow> bool"
  and py_eq_list :: "pyval list \<Rightarrow> pyval list \<Rightarrow> bool"
  and py_eq_items :: "string list \<Rightarrow> (string \<times> pyval) list \<Rightarrow> (string \<times> pyval) list \<Rightarrow> bool"
  where
  "py_eq PNone PNone = True"
| "py_eq (PStr s) (PStr t) = (s = t)"
| "py_eq (PList xs) (PList ys) = py_eq_list xs ys"
| "py_eq (PDict xs) (PDict ys) =
     (length (remdups (map fst xs)) = length (remdups (map fst ys)) \<and> py_eq_items [] xs ys)"
| "py_eq a b =
     (case (number_of a, number_of b) of
        (Some x, Some y) \<Rightarrow> float_eq x y
      | _ \<Rightarrow> False)"
| "py_eq_list [] [] = True"
| "py_eq_list (x # xs) (y # ys) = ((same_nan x y \<or> py_eq x y) \<and> py_eq_list xs ys)"
| "py_eq_list _ _ = False"
| "py_eq_items seen [] ys = True"
| "py_eq_items seen ((k, v) # xs) ys =
     (if k \<in> set seen then py_eq_items seen xs ys
      else
        (case map_of ys k of
           None \<Rightarrow> False
         | Some w \<Rightarrow> (same_nan v w \<or> py_eq v w) \<and> py_eq_items (k # seen) xs ys))"

definition py_ne :: "pyval \<Rightarrow> pyval \<Rightarrow> bool" where
  "py_ne a b = (\<not> py_eq a b)"

subsection \<open>Subscripts and \<open>float()\<close>\<close>

text \<open>\<open>d[key]\<close> with a string key: KeyError on a dictionary without the key, TypeError on any
  value that is not a dictionary.\<close>

definition py_getitem :: "pyval \<Rightarrow> string \<Rightarrow> error + pyval" where
  "py_getitem d k =
     (case d of
        PDict items \<Rightarrow> (case map_of items k of None \<Rightarrow> Inl (KeyError k) | Some v \<Rightarrow> Inr v)
      | _ \<Rightarrow> Inl TypeError)"

text \<open>
  \<open>float(i)\<close> for an integer: the nearest double, ties to the even mantissa (53 bits), and
  OverflowError when the rounded value is \<open>2 ^ 1024\<close> or more.
\<close>

definition float_of_int :: "int \<Rightarrow> error + pyfloat" where
  "float_of_int i =
     (let a = \<bar>i\<bar>; k = bitlen a in
      if k \<le> 53 then Inr (Finite (of_int i))
      else
        let s = nat (k - 53); q = a div 2 ^ s; r = a mod 2 ^ s; h = 2 ^ (s - 1);
            q' = (if h < r \<or> (r = h \<and> odd q) then q + 1 else q);
            v = q' * 2 ^ s
        in if 2 ^ 1024 \<le> v then Inl OverflowError else Inr (Finite (of_int (sgn i * v))))"

definition py_float :: "pyval \<Rightarrow> error + pyfloat" where
  "py_float v =
     (case v of
        PFloat f \<Rightarrow> Inr f
      | PInt i \<Rightarrow> float_of_int i
      | PBool b \<Rightarrow> Inr (Finite (if b then 1 else 0))
      | PStr s \<Rightarrow> Inl (FloatOfStr s)
      | _ \<Rightarrow> Inl TypeError)"

section \<open>Diff engine: \<open>get_changed_variables\<close>\<close>

text \<open>\<open>isinstance(x, (list, tuple))\<close>: a JSON document holds no tuples.\<close>

definition is_list :: "pyval \<Rightarrow> bool" where
  "is_list v = (case v of PList _ \<Rightarrow> True | _ \<Rightarrow> False)"

text \<open>
  The body of the loop for one variable, in the order the code evaluates: the two
  \<open>method\<close> fields, the two \<open>quarters\<close> fields, \<open>curr["input"]\<close> for the \<open>isinstance\<close> test, then
  either the list comparison or the two \<open>float()\<close> calls, left operand first. The condition
  of the final \<open>if\<close> evaluates the same expressions again and raises nothing new.
\<close>

definition var_changed :: "pyval \<Rightarrow> pyval \<Rightarrow> error + bool" where
  "var_changed curr_d orig_d =
     (case py_getitem curr_d ''method'' of Inl e \<Rightarrow> Inl e | Inr cm \<Rightarrow>
      case py_getitem orig_d ''method'' of Inl e \<Rightarrow> Inl e | Inr om \<Rightarrow>
      case py_getitem curr_d ''quarters'' of Inl e \<Rightarrow> Inl e | Inr cq \<Rightarrow>
      case py_getitem orig_d ''quarters'' of Inl e \<Rightarrow> Inl e | Inr oq \<Rightarrow>
      case py_getitem curr_d ''input'' of Inl e \<Rightarrow> Inl e | Inr ci \<Rightarrow>
      if is_list ci then
        (case py_getitem orig_d ''input'' of Inl e \<Rightarrow> Inl e | Inr oi \<Rightarrow>
           Inr (py_ne cm om \<or> py_ne cq oq \<or> py_ne ci oi))
      else
        (case py_float ci of Inl e \<Rightarrow> Inl e | Inr cf \<Rightarrow>
         case py_getitem orig_d ''input'' of Inl e \<Rightarrow> Inl e | Inr oi \<Rightarrow>
         case py_float oi of Inl e \<Rightarrow> Inl e | Inr of' \<Rightarrow>
           Inr (py_ne cm om \<or> py_ne cq oq \<or> \<not> float_eq cf of')))"

text \<open>
  \<open>for var_name in current_data\<close>: the keys of \<open>current_data\<close> in order; \<open>current_data[var_name]\<close>
  is there for each of them, \<open>original_data[var_name]\<close> raises KeyError when it is not.
\<close>

fun changed_loop :: "string list \<Rightarrow> pydict \<Rightarrow> pydict \<Rightarrow> string set \<Rightarrow> error + string set" where
  "changed_loop [] current_data original_data changed_vars = Inr changed_vars"
| "changed_loop (var_name # rest) current_data original_data changed_vars =
     (case map_of current_data var_name of
        None \<Rightarrow> Inl (KeyError var_name)
      | Some curr_d \<Rightarrow>
          (case map_of original_data var_name of
             None \<Rightarrow> Inl (KeyError var_name)
           | Some orig_d \<Rightarrow>
               (case var_changed curr_d orig_d of
                  Inl e \<Rightarrow> Inl e
                | Inr changed \<Rightarrow>
                    changed_loop rest current_data original_data
                      (if changed then insert var_name changed_vars else changed_vars))))"

definition get_changed_variables :: "pydict \<Rightarrow> pydict \<Rightarrow> error + string set" where
  "get_changed_variables current_data original_data =
     changed_loop (map fst current_data) current_data original_data {}"

text \<open>
  A record on which the loop body of \<open>get_changed_variables\<close> runs without raising and
  finds nothing different from itself: it has the fields \<open>method\<close>, \<open>quarters\<close> and \<open>input\<close>,
  the values of \<open>method\<close> and \<open>quarters\<close> are not a NaN, and the input is a list or a
  number that \<open>float()\<close> converts to something other than NaN.
\<close>

definition nan_value :: "pyval \<Rightarrow> bool" where
  "nan_value v = (case v of PFloat f \<Rightarrow> is_nan f | _ \<Rightarrow> False)"

definition comparable_record :: "pyval \<Rightarrow> bool" where
  "comparable_record r =
     (case (py_getitem r ''method'', py_getitem r ''quarters'', py_getitem r ''input'') of
        (Inr m, Inr q, Inr i) \<Rightarrow>
          \<not> nan_value m \<and> \<not> nan_value q \<and>
          (is_list i \<or> (case py_float i of Inl e \<Rightarrow> False | Inr f \<Rightarrow> \<not> is_nan f))
      | _ \<Rightarrow> False)"

section \<open>Files, the user interface and the session\<close>

text \<open>
  A file is seen through \<open>open(path, 'r')\<close> and \<open>json.load\<close>: it parses to a document, or
  opening or loading it raises an exception: JSONDecodeError when its text is not valid
  JSON, UnicodeDecodeError when its bytes are not text, RecursionError, ValueError,
  PermissionError, IsADirectoryError. A file that does not exist is no file
  (FileNotFoundError from \<open>open\<close>, \<open>False\<close> from \<open>os.path.exists\<close>). Writing a document with
  \<open>json.dump\<close> leaves a file that parses to it.

  Whether a write succeeds is the environment's choice: \<open>open(name, 'w')\<close> can raise and
  leave the directory as it was, and \<open>json.dump\<close> can raise after the file was created,
  leaving a file that is not valid JSON. Either carries the text of its exception.
  \<open>os.remove\<close> is only called on a file that exists and is modelled as deleting it.
\<close>

datatype json_file = Parsed pyval | Unloadable error

datatype write_result = Written | OpenFails string | DumpFails string

text \<open>What the script shows: an \<open>st.error\<close> message, or the card "Previous Session Detected"
  with its two buttons.\<close>

datatype ui_event = UiError string | UiPrompt

text \<open>
  The keys of \<open>st.session_state\<close> that the session start uses (\<open>st_data\<close> and
  \<open>st_original_data\<close> are its keys \<open>data\<close> and \<open>original_data\<close>). A key that is absent is
  \<open>None\<close>; \<open>initialized\<close> is only ever tested for presence.
\<close>

record session_state =
  show_prompt :: "bool option"
  temp_data :: "pyval option"
  st_data :: "pyval option"
  st_original_data :: "pyval option"
  initialized :: bool

text \<open>The session state of a browser session that has run nothing yet.\<close>

definition new_session :: session_state where
  "new_session =
     \<lparr>show_prompt = None, temp_data = None, st_data = None, st_original_data = None,
      initialized = False\<rparr>"

text \<open>
  The world of one run of the script: the files of the working directory, the outcome the
  environment has in store for a write to each path, the clock reading
  \<open>datetime.now().strftime("%Y%m%d_%H%M%S")\<close>, the buttons (by widget key) whose click
  started this run, what has been shown, and the session state.
\<close>

record world =
  files :: "string \<Rightarrow> json_file option"
  write_outcome :: "string \<Rightarrow> write_result"
  now :: string
  clicked :: "string \<Rightarrow> bool"
  ui :: "ui_event list"
  session :: session_state

text \<open>A script run ends by returning, by \<open>st.stop()\<close>, by \<open>st.rerun()\<close> or by an exception.\<close>

datatype 'a outcome = Returned 'a | Stopped | Rerun | Raised error

definition TEMP_FILE :: string where
  "TEMP_FILE = ''temp_config.json''"

definition BASELINE_SPEC :: string where
  "BASELINE_SPEC = ''dummy_spec.json''"

definition os_remove :: "string \<Rightarrow> world \<Rightarrow> world" where
  "os_remove path w = w\<lparr>files := (files w)(path := None)\<rparr>"

definition st_error :: "string \<Rightarrow> world \<Rightarrow> world" where
  "st_error msg w = w\<lparr>ui := ui w @ [UiError msg]\<rparr>"


subsection \<open>\<open>load_spec_file\<close>\<close>

text \<open>
  \<open>except FileNotFoundError\<close> is the only handler: for a missing file the message is shown
  and the empty dictionary returned; every other exception of \<open>open\<close> or \<open>json.load\<close>
  propagates. The document is returned as parsed, whatever it holds.
\<close>

definition load_spec_file :: "world \<Rightarrow> world \<times> (error + pyval)" where
  "load_spec_file w =
     (case files w BASELINE_SPEC of
        None \<Rightarrow>
          (st_error (''Baseline specification ('' @ BASELINE_SPEC @ '') not found!'') w,
           Inr (PDict []))
      | Some (Unloadable e) \<Rightarrow> (w, Inl e)
      | Some (Parsed doc) \<Rightarrow> (w, Inr doc))"

subsection \<open>\<open>check_for_temp_file\<close>\<close>

text \<open>
  The result is the value returned (\<open>PNone\<close> for \<open>None\<close>), or the way the run ended.
  \<open>st.rerun()\<close> and \<open>st.stop()\<close> leave the function at once. The \<open>except\<close> clause catches
  \<open>json.JSONDecodeError\<close> only: it removes the file and returns \<open>None\<close>; any other
  exception of \<open>open\<close> or \<open>json.load\<close> leaves the function, and the file stays.
\<close>

definition check_for_temp_file :: "world \<Rightarrow> world \<times> pyval outcome" where
  "check_for_temp_file w =
     (case files w TEMP_FILE of
        None \<Rightarrow> (w, Returned PNone)
      | Some (Unloadable e) \<Rightarrow>
          if e = JSONDecodeError then (os_remove TEMP_FILE w, Returned PNone)
          else (w, Raised e)
      | Some (Parsed doc) \<Rightarrow>
          let w1 = (if show_prompt (session w) = None
                    then w\<lparr>session := (session w)\<lparr>show_prompt := Some True\<rparr>\<rparr> else w)
          in
          if show_prompt (session w1) = Some True then
            let w2 = w1\<lparr>ui := ui w1 @ [UiPrompt]\<rparr> in
            if clicked w2 ''load_prev'' then
              (w2\<lparr>session := (session w2)\<lparr>show_prompt := Some False, temp_data := Some doc\<rparr>\<rparr>,
               Rerun)
            else if clicked w2 ''start_fresh'' then
              (let w3 = os_remove TEMP_FILE
                          (w2\<lparr>session := (session w2)\<lparr>show_prompt := Some False\<rparr>\<rparr>)
               in w3\<lparr>session := (session w3)\<lparr>temp_data := Some PNone\<rparr>\<rparr>,
               Rerun)
            else (w2, Stopped)
          else
            (w1, Returned (case temp_data (session w1) of None \<Rightarrow> PNone | Some v \<Rightarrow> v)))"

subsection \<open>The session start of \<open>main\<close>\<close>

text \<open>
  The block under \<open>if 'initialized' not in st.session_state\<close>. \<open>deepcopy\<close> of a document is
  the same document.
\<close>

definition session_start :: "world \<Rightarrow> world \<times> unit outcome" where
  "session_start w =
     (if initialized (session w) then (w, Returned ())
      else
        (case check_for_temp_file w of
           (w1, Returned temp) \<Rightarrow>
             if temp \<noteq> PNone then
               (let w2 = w1\<lparr>session := (session w1)\<lparr>st_data := Some temp\<rparr>\<rparr> in
                case load_spec_file w2 of
                  (w3, Inl e) \<Rightarrow> (w3, Raised e)
                | (w3, Inr spec) \<Rightarrow>
                    (w3\<lparr>session := (session w3)\<lparr>st_original_data := Some spec,
                                                 initialized := True\<rparr>\<rparr>,
                     Returned ()))
             else
               (case load_spec_file w1 of
                  (w2, Inl e) \<Rightarrow> (w2, Raised e)
                | (w2, Inr loaded_data) \<Rightarrow>
                    (w2\<lparr>session := (session w2)\<lparr>st_data := Some loaded_data,
                                                 st_original_data := Some loaded_data,
                                                 initialized := True\<rparr>\<rparr>,
                     Returned ()))
         | (w1, Stopped) \<Rightarrow> (w1, Stopped)
         | (w1, Rerun) \<Rightarrow> (w1, Rerun)
         | (w1, Raised e) \<Rightarrow> (w1, Raised e)))"

subsection \<open>\<open>save_final_config\<close>\<close>


section \<open>Batch mutator: \<open>apply_settings_to_variables\<close>\<close>

text \<open>
  The function assigns into the dictionaries of \<open>data\<close> and stores lists in them, and what
  matters is which list object each variable ends up with. So here a list is an object in
  a store: a value is \<open>None\<close>, a boolean, a number, a string, or the address of a list, and
  the store maps an address to the elements of the list there. \<open>next_addr\<close> is the first
  address not yet in use; a new list object is created there.
  The same function stands in \<open>app.py\<close> and in \<open>streamlit_app.py\<close>.
\<close>

type_synonym addr = nat

datatype hval = HNone | HBool bool | HInt int | HFloat pyfloat | HStr string | HList addr

type_synonym hrecord = "(string \<times> hval) list"

type_synonym hconfig = "(string \<times> hrecord) list"

record heap =
  cells :: "addr \<Rightarrow> hval list"
  next_addr :: addr

text \<open>\<open>x.copy()\<close>: a new list object with the same elements (a shallow copy) when \<open>x\<close> is a
  list; the other values have no such method.\<close>

definition list_copy :: "hval \<Rightarrow> heap \<Rightarrow> error + hval \<times> heap" where
  "list_copy x h =
     (case x of
        HList a \<Rightarrow>
          Inr (HList (next_addr h),
               h\<lparr>cells := (cells h)(next_addr h := cells h a), next_addr := Suc (next_addr h)\<rparr>)
      | _ \<Rightarrow> Inl AttributeError)"

text \<open>\<open>settings[key]\<close>, and the assignment \<open>data[var_name][field] = x\<close>, which raises KeyError
  when \<open>data\<close> has no \<open>var_name\<close> and otherwise updates that record in place.\<close>

definition get_setting :: "hrecord \<Rightarrow> string \<Rightarrow> error + hval" where
  "get_setting settings key =
     (case map_of settings key of None \<Rightarrow> Inl (KeyError key) | Some x \<Rightarrow> Inr x)"

definition set_field :: "string \<Rightarrow> string \<Rightarrow> hval \<Rightarrow> hconfig \<Rightarrow> error + hconfig" where
  "set_field var_name field x data =
     (case map_of data var_name of
        None \<Rightarrow> Inl (KeyError var_name)
      | Some r \<Rightarrow> Inr (AList.update var_name (AList.update field x r) data))"

text \<open>The body of the loop for one variable. Each right-hand side is evaluated before its
  assignment looks \<open>data[var_name]\<close> up.\<close>

definition apply_to_variable ::
  "string \<Rightarrow> hrecord \<Rightarrow> hconfig \<Rightarrow> heap \<Rightarrow> error + hconfig \<times> heap" where
  "apply_to_variable var_name settings data h =
     (case get_setting settings ''method'' of Inl e \<Rightarrow> Inl e | Inr m \<Rightarrow>
      case set_field var_name ''method'' m data of Inl e \<Rightarrow> Inl e | Inr d1 \<Rightarrow>
      if m = HStr ''single_value_fill'' then
        (case get_setting settings ''input'' of Inl e \<Rightarrow> Inl e | Inr i \<Rightarrow>
         case set_field var_name ''input'' i d1 of Inl e \<Rightarrow> Inl e | Inr d2 \<Rightarrow>
         case set_field var_name ''quarters'' HNone d2 of Inl e \<Rightarrow> Inl e | Inr d3 \<Rightarrow>
           Inr (d3, h))
      else
        (case get_setting settings ''quarters'' of Inl e \<Rightarrow> Inl e | Inr q \<Rightarrow>
         case set_field var_name ''quarters'' q d1 of Inl e \<Rightarrow> Inl e | Inr d2 \<Rightarrow>
         case get_setting settings ''input'' of Inl e \<Rightarrow> Inl e | Inr i \<Rightarrow>
         case list_copy i h of Inl e \<Rightarrow> Inl e | Inr (c, h') \<Rightarrow>
         case set_field var_name ''input'' c d2 of Inl e \<Rightarrow> Inl e | Inr d3 \<Rightarrow>
           Inr (d3, h')))"

fun apply_settings_to_variables ::
  "string list \<Rightarrow> hrecord \<Rightarrow> hconfig \<Rightarrow> heap \<Rightarrow> error + hconfig \<times> heap" where
  "apply_settings_to_variables [] settings data h = Inr (data, h)"
| "apply_settings_to_variables (var_name # rest) settings data h =
     (case apply_to_variable var_name settings data h of
        Inl e \<Rightarrow> Inl e
      | Inr (d, h') \<Rightarrow> apply_settings_to_variables rest settings d h')"

text \<open>\<open>data[name]["input"]\<close>, where it exists.\<close>

definition input_of :: "hconfig \<Rightarrow> string \<Rightarrow> hval option" where
  "input_of data name = (case map_of data name of None \<Rightarrow> None | Some r \<Rightarrow> map_of r ''input'')"

text \<open>An assignment to an element of the list at an address, as \<open>xs[i] = x\<close> does on a list
  object (IndexError outside the list).\<close>

definition list_setitem :: "addr \<Rightarrow> nat \<Rightarrow> hval \<Rightarrow> heap \<Rightarrow> error + heap" where
  "list_setitem a i x h =
     (if i < length (cells h a) then Inr (h\<lparr>cells := (cells h)(a := (cells h a)[i := x])\<rparr>)
      else Inl IndexError)"

section \<open>Properties of the quarter codec\<close>

lemma quarters_loop_done: "\<not> dt_le c e \<Longrightarrow> quarters_loop c e qs = Inr qs"
  by (simp add: quarters_loop.simps)

lemma quarters_loop_step:
  "dt_le c e \<Longrightarrow> next_date c = Inr d \<Longrightarrow>
   quarters_loop c e qs = quarters_loop d e (qs @ [quarter_label c])"
  by (subst quarters_loop.simps) simp

lemma quarters_loop_raise:
  "dt_le c e \<Longrightarrow> next_date c = Inl x \<Longrightarrow> quarters_loop c e qs = Inl x"
  by (subst quarters_loop.simps) simp

lemma digit_not_space: "is_digit c \<Longrightarrow> \<not> is_space c"
  by (auto simp: is_digit_def is_space_def)

lemma digit_not_sign: "is_digit c \<Longrightarrow> c \<noteq> CHR ''+'' \<and> c \<noteq> CHR ''-'' \<and> c \<noteq> CHR ''_''"
  by (auto simp: is_digit_def)

lemma scan_digits_all:
  "list_all is_digit cs \<Longrightarrow> scan_digits acc cs = Some (foldl (\<lambda>a c. 10 * a + digit_val c) acc cs)"
  by (induction cs arbitrary: acc) auto

lemma strip_digits: "list_all is_digit s \<Longrightarrow> strip s = s"
proof (cases s rule: rev_cases)
  case Nil
  then show ?thesis by (simp add: strip_def)
next
  case (snoc ys y)
  assume a: "list_all is_digit s"
  have 1: "dropWhile is_space s = s"
    using a by (cases s) (auto simp: digit_not_space)
  have 2: "dropWhile is_space (rev s) = rev s"
    using a snoc by (auto simp: digit_not_space)
  show ?thesis by (simp add: strip_def 1 2)
qed

lemma py_int_digits:
  "list_all is_digit s \<Longrightarrow> s \<noteq> [] \<Longrightarrow> py_int s = Inr (digits_value s)"
  by (cases s)
     (auto simp: py_int_def strip_digits parse_digits_def scan_digits_all digits_value_def
           dest: digit_not_sign)

lemma digits_value_bounds:
  "list_all is_digit s \<Longrightarrow> 0 \<le> digits_value s \<and> digits_value s < 10 ^ length s"
proof (induction s rule: rev_induct)
  case Nil
  then show ?case by (simp add: digits_value_def)
next
  case (snoc x xs)
  then have "0 \<le> digit_val x \<and> digit_val x \<le> 9"
    by (auto simp: is_digit_def digit_val_def)
  with snoc show ?case by (auto simp: digits_value_def)
qed

lemma dt_le_index:
  "quarter_start c \<Longrightarrow> quarter_start e \<Longrightarrow> dt_le c e \<longleftrightarrow> date_index c \<le> date_index e"
  by (cases c; cases e) (auto simp: dt_le_def date_index_def quarter_start_def)

lemma quarter_label_index: "quarter_start c \<Longrightarrow> quarter_label c = index_label (date_index c)"
  by (cases c) (auto simp: quarter_label_def index_label_def date_index_def quarter_start_def)

lemma next_date_index:
  assumes "quarter_start c" "1 \<le> dt_year c" "date_index c < 4 * 9999 + 3"
  shows "\<exists>d. next_date c = Inr d \<and> quarter_start d \<and> 1 \<le> dt_year d \<and>
             date_index d = date_index c + 1"
  using assms
  by (cases c) (auto simp: next_date_def datetime_first_def date_index_def quarter_start_def)

lemma quarters_loop_range:
  assumes "quarter_start c" "quarter_start e" "1 \<le> dt_year c" "date_index e < 4 * 9999 + 3"
  shows "quarters_loop c e qs = Inr (qs @ map index_label [date_index c..date_index e])"
  using assms
proof (induction c e qs rule: quarters_loop.induct)
  case (1 c e qs)
  show ?case
  proof (cases "dt_le c e")
    case False
    with "1.prems" have "date_index e < date_index c"
      by (simp add: dt_le_index)
    with False show ?thesis
      by (simp add: quarters_loop_done)
  next
    case True
    with "1.prems" have le: "date_index c \<le> date_index e"
      by (simp add: dt_le_index)
    with "1.prems" have "date_index c < 4 * 9999 + 3" by simp
    with "1.prems" obtain d where d: "next_date c = Inr d" "quarter_start d" "1 \<le> dt_year d"
        "date_index d = date_index c + 1"
      using next_date_index by blast
    have "quarters_loop c e qs = quarters_loop d e (qs @ [quarter_label c])"
      using True d(1) by (rule quarters_loop_step)
    also have "\<dots> = Inr ((qs @ [quarter_label c]) @ map index_label [date_index d..date_index e])"
      using "1.IH" [OF True d(1)] d "1.prems" by simp
    also have "\<dots> = Inr (qs @ map index_label [date_index c..date_index e])"
      using le d(4) "1.prems"(1) by (simp add: quarter_label_index upto_rec1 [of "date_index c"])
    finally show ?thesis .
  qed
qed

lemma py_int_single: "py_int [c] = (if is_digit c then Inr (digit_val c) else Inl ValueError)"
  by (auto simp: py_int_def strip_def parse_digits_def digit_not_space is_digit_def)

lemma label_shape:
  assumes "re_match_label s"
  shows "list_all is_digit (take 4 s) \<and> length (take 4 s) = 4 \<and> 5 < length s \<and> s ! 5 \<in> set ''1234''"
  using assms
  by (auto simp: re_match_label_def Let_def min_def split: if_splits)

lemma quarter_to_date_label:
  assumes "re_match_label s" "1 \<le> label_year s"
  shows "\<exists>d. quarter_to_date s = Inr d \<and> quarter_start d \<and> 1 \<le> dt_year d \<and>
             date_index d = quarter_index s"
proof -
  from label_shape [OF assms(1)]
  have dig: "list_all is_digit (take 4 s)" and len: "length (take 4 s) = 4" and
       l5: "5 < length s" and q: "s ! 5 \<in> set ''1234''"
    by simp_all
  from dig len have ne: "take 4 s \<noteq> []" by auto
  have y: "py_int (take 4 s) = Inr (label_year s)"
    using py_int_digits [OF dig ne] by (simp add: label_year_def)
  have "label_year s < 10 ^ 4"
    using digits_value_bounds [OF dig] len by (simp add: label_year_def)
  then have hi: "label_year s \<le> 9999" by simp
  from q have qd: "is_digit (s ! 5)" and qv: "digit_val (s ! 5) \<in> {1, 2, 3, 4}"
    by (auto simp: is_digit_def digit_val_def)
  from qv show ?thesis
    using y l5 qd hi assms(2)
    by (auto simp: quarter_to_date_def py_int_single datetime_first_def quarter_start_def
        date_index_def quarter_index_def label_quarter_def)
qed

lemma generate_quarters_range:
  assumes "re_match_label start" "re_match_label end"
    and "1 \<le> label_year start" "1 \<le> label_year end"
    and "quarter_index end < 4 * 9999 + 3"
  shows "generate_quarters start end =
           Inr (map index_label [quarter_index start..quarter_index end])"
proof -
  obtain c where c: "quarter_to_date start = Inr c" "quarter_start c" "1 \<le> dt_year c"
      "date_index c = quarter_index start"
    using quarter_to_date_label [OF assms(1,3)] by blast
  obtain e where e: "quarter_to_date end = Inr e" "quarter_start e" "1 \<le> dt_year e"
      "date_index e = quarter_index end"
    using quarter_to_date_label [OF assms(2,4)] by blast
  have "quarters_loop c e [] = Inr ([] @ map index_label [date_index c..date_index e])"
    using c e assms(5) by (intro quarters_loop_range) simp_all
  then show ?thesis
    by (simp add: generate_quarters_def c e)
qed

lemma py_int_success_single: "py_int [c] = Inr q \<longleftrightarrow> is_digit c \<and> q = digit_val c"
  by (auto simp: py_int_single)

lemma char_eq_code: "c = d \<longleftrightarrow> (of_char c :: nat) = of_char d"
  by simp

text \<open>
  Claim C8, as the code has it. \<open>quarter_to_date\<close> raises on the four inputs named by the
  claim: IndexError on \<open>2024\<close> (no sixth character), ValueError on \<open>Q12024\<close> and \<open>abcdQ1\<close>
  (the first four characters are not an integer) and on \<open>2024Q5\<close> (month 13). In general
  it returns a date exactly when the first four characters are an integer literal with a
  value in 1..9999, the string has at least six characters and the sixth is one of 1, 2, 3, 4.
  The fifth character and everything after the sixth are never read, so it does not raise
  on every string that the pattern rejects: the callers match the pattern before they call.
\<close>

theorem quarter_to_date_failures:
  "quarter_to_date ''2024'' = Inl IndexError \<and>
   quarter_to_date ''Q12024'' = Inl ValueError \<and>
   quarter_to_date ''2024Q5'' = Inl ValueError \<and>
   quarter_to_date ''abcdQ1'' = Inl ValueError \<and>
   ((\<exists>d. quarter_to_date s = Inr d) \<longleftrightarrow>
      (\<exists>y. py_int (take 4 s) = Inr y \<and> 1 \<le> y \<and> y \<le> 9999) \<and> 5 < length s \<and>
      s ! 5 \<in> set ''1234'')"
proof -
  have a: "quarter_to_date ''2024'' = Inl IndexError"
    by (simp add: quarter_to_date_def py_int_digits is_digit_def)
  have b: "quarter_to_date ''Q12024'' = Inl ValueError"
    by (simp add: quarter_to_date_def py_int_def strip_def is_space_def parse_digits_def is_digit_def)
  have c: "quarter_to_date ''2024Q5'' = Inl ValueError"
    by (simp add: quarter_to_date_def py_int_digits py_int_single is_digit_def digits_value_def
        digit_val_def datetime_first_def)
  have d: "quarter_to_date ''abcdQ1'' = Inl ValueError"
    by (simp add: quarter_to_date_def py_int_def strip_def is_space_def parse_digits_def is_digit_def)
  have e: "(\<exists>d. quarter_to_date s = Inr d) \<longleftrightarrow>
      (\<exists>y. py_int (take 4 s) = Inr y \<and> 1 \<le> y \<and> y \<le> 9999) \<and> 5 < length s \<and>
      s ! 5 \<in> set ''1234''"
  proof (cases "py_int (take 4 s)")
    case (Inl x)
    then show ?thesis by (simp add: quarter_to_date_def)
  next
    case (Inr y)
    show ?thesis
    proof (cases "5 < length s")
      case False
      with Inr show ?thesis by (simp add: quarter_to_date_def)
    next
      case True
      have q: "is_digit c \<and> 1 \<le> (digit_val c - 1) * 3 + 1 \<and> (digit_val c - 1) * 3 + 1 \<le> 12
                 \<longleftrightarrow> c \<in> set ''1234''" for c
      proof -
        have "c \<in> set ''1234'' \<longleftrightarrow> (of_char c :: nat) \<in> {49, 50, 51, 52}"
          by (simp add: char_eq_code del: of_char_eq_iff)
        then show ?thesis
          by (auto simp: is_digit_def digit_val_def)
      qed
      from Inr True q [of "s ! 5"] show ?thesis
        by (auto simp: quarter_to_date_def py_int_single datetime_first_def)
    qed
  qed
  from a b c d e show ?thesis by blast
qed

theorem quarter_to_date_failures_witness: "\<exists>d. quarter_to_date ''2024X1'' = Inr d"
  using quarter_to_date_failures [of "''2024X1''"]
  by (simp add: py_int_digits is_digit_def digits_value_def digit_val_def)

text \<open>The label \<open>2024X1\<close> does not match the pattern, and \<open>quarter_to_date\<close> accepts it.\<close>

theorem quarter_to_date_unchecked_counterexample:
  "\<not> re_match_label ''2024X1'' \<and> quarter_to_date ''2024X1'' = Inr (Datetime 2024 1)"
  by (simp add: re_match_label_def quarter_to_date_def py_int_digits py_int_single is_digit_def
      digits_value_def digit_val_def datetime_first_def)

text \<open>
  Claim C3, on the years a \<open>datetime\<close> can hold. For labels that match the pattern, with
  years from 1 on and an end before the last quarter of year 9999, \<open>generate_quarters\<close>
  returns the labels of all quarters from start to end, one after the other (the fourth
  quarter of a year followed by the first of the next): as many as the quarter distance plus
  one when the start is not after the end, and the empty list, without an error, when the end
  precedes the start.
\<close>

theorem generate_quarters_length:
  assumes "re_match_label start" and "re_match_label end"
    and "1 \<le> label_year start" and "1 \<le> label_year end"
    and "quarter_index end < 4 * 9999 + 3"
  shows "\<exists>qs. generate_quarters start end = Inr qs \<and>
           qs = map index_label [quarter_index start..quarter_index end] \<and>
           length qs = (if quarter_index start \<le> quarter_index end
                        then nat (quarter_distance start end + 1) else 0)"
  using generate_quarters_range [OF assms]
  by (simp add: quarter_distance_def)

lemma label_eval:
  "re_match_label ''2024Q1''" "re_match_label ''2024Q4''" "re_match_label ''2023Q4''"
  "label_year ''2024Q1'' = 2024" "label_year ''2024Q4'' = 2024" "label_year ''2023Q4'' = 2023"
  "quarter_index ''2024Q1'' = 8096" "quarter_index ''2024Q4'' = 8099" "quarter_index ''2023Q4'' = 8095"
  by (simp_all add: re_match_label_def is_digit_def label_year_def digits_value_def digit_val_def
      quarter_index_def label_quarter_def)

theorem generate_quarters_length_witness:
  "(\<exists>qs. generate_quarters ''2024Q1'' ''2024Q4'' = Inr qs \<and> length qs = 4) \<and>
   generate_quarters ''2024Q1'' ''2023Q4'' = Inr []"
  using generate_quarters_length [of "''2024Q1''" "''2024Q4''"]
    generate_quarters_length [of "''2024Q1''" "''2023Q4''"]
  by (simp add: label_eval quarter_distance_def)

text \<open>Year 0 matches the pattern and is no year of a \<open>datetime\<close>: the call raises ValueError.\<close>

theorem generate_quarters_year_range_counterexample:
  "re_match_label ''0000Q1'' \<and> re_match_label ''0000Q2'' \<and>
   generate_quarters ''0000Q1'' ''0000Q2'' = Inl ValueError"
  by (simp add: re_match_label_def generate_quarters_def quarter_to_date_def py_int_digits
      is_digit_def digits_value_def digit_val_def datetime_first_def)

lemma generate_quarters_example:
  "generate_quarters ''2024Q1'' ''2024Q4'' = Inr [''2024Q1'', ''2024Q2'', ''2024Q3'', ''2024Q4'']"
  by (simp add: generate_quarters_range label_eval upto_rec1 index_label_def py_str_int_def
      digits_of.simps digit_char_def)

text \<open>
  The loop builds the next date before it compares it with the end: after the fourth
  quarter of year 9999 that is a date of year 10000, which \<open>datetime\<close> refuses.
\<close>

lemma generate_quarters_last_quarter:
  "generate_quarters ''9999Q3'' ''9999Q4'' = Inl ValueError"
proof -
  have s: "quarter_to_date ''9999Q3'' = Inr (Datetime 9999 7)"
    and e: "quarter_to_date ''9999Q4'' = Inr (Datetime 9999 10)"
    by (simp_all add: quarter_to_date_def py_int_digits py_int_single is_digit_def
        digits_value_def digit_val_def datetime_first_def)
  have "quarters_loop (Datetime 9999 7) (Datetime 9999 10) [] =
        quarters_loop (Datetime 9999 10) (Datetime 9999 10) [quarter_label (Datetime 9999 7)]"
    by (subst quarters_loop_step [where d = "Datetime 9999 10"])
       (simp_all add: dt_le_def next_date_def datetime_first_def)
  also have "\<dots> = Inl ValueError"
    by (rule quarters_loop_raise) (simp_all add: dt_le_def next_date_def datetime_first_def)
  finally show ?thesis
    by (simp add: generate_quarters_def s e)
qed
section \<open>Properties of the diff engine\<close>

lemma py_eq_list_refl: "\<forall>x\<in>set xs. same_nan x x \<or> py_eq x x \<Longrightarrow> py_eq_list xs xs"
  by (induction xs) auto

lemma py_eq_items_refl:
  "\<forall>(k, v)\<in>set xs. same_nan v v \<or> py_eq v v \<Longrightarrow> set seen = fst ` set pre \<Longrightarrow>
   py_eq_items seen xs (pre @ xs)"
proof (induction xs arbitrary: seen pre)
  case Nil
  then show ?case by simp
next
  case (Cons kv xs)
  obtain k v where kv: "kv = (k, v)" by (cases kv)
  from Cons.prems(1) have rest: "\<forall>(k, v)\<in>set xs. same_nan v v \<or> py_eq v v"
    and here: "same_nan v v \<or> py_eq v v"
    by (auto simp: kv)
  have split: "pre @ kv # xs = (pre @ [kv]) @ xs" by simp
  show ?case
  proof (cases "k \<in> set seen")
    case True
    with Cons.prems(2) have "set seen = fst ` set (pre @ [kv])"
      by (auto simp: kv)
    from Cons.IH [OF rest this] True show ?thesis
      by (simp add: kv)
  next
    case False
    with Cons.prems(2) have "map_of pre k = None"
      by (simp add: map_of_eq_None_iff)
    then have look: "map_of (pre @ kv # xs) k = Some v"
      by (simp add: kv map_add_def)
    from Cons.prems(2) have "set (k # seen) = fst ` set (pre @ [kv])"
      by (auto simp: kv)
    from Cons.IH [OF rest this] have "py_eq_items (k # seen) xs (pre @ kv # xs)"
      by simp
    with False look here show ?thesis
      by (simp add: kv)
  qed
qed

lemma py_eq_refl: "(same_nan v v \<or> py_eq v v) \<and> (\<not> nan_value v \<longrightarrow> py_eq v v)"
proof (induction v)
  case (PFloat f)
  show ?case
    by (cases f) (simp_all add: nan_value_def is_nan_def float_eq_def)
next
  case (PList xs)
  then have "py_eq_list xs xs"
    by (intro py_eq_list_refl) blast
  then show ?case by simp
next
  case (PDict items)
  then have "\<forall>(k, v)\<in>set items. same_nan v v \<or> py_eq v v"
    by fastforce
  then have "py_eq_items [] items ([] @ items)"
    by (rule py_eq_items_refl) simp
  then show ?case by simp
qed (simp_all add: float_eq_def is_nan_def nan_value_def)

lemma py_eq_self: "\<not> nan_value v \<Longrightarrow> py_eq v v"
  using py_eq_refl [of v] by simp

lemma list_not_nan: "is_list v \<Longrightarrow> \<not> nan_value v"
  by (cases v) (simp_all add: is_list_def nan_value_def)

lemma var_changed_self: "comparable_record r \<Longrightarrow> var_changed r r = Inr False"
  by (auto simp: comparable_record_def var_changed_def py_ne_def py_eq_self list_not_nan
      float_eq_def split: sum.splits if_splits)

lemma changed_loop_unchanged:
  "\<forall>v\<in>set vs. \<exists>r. map_of cfg v = Some r \<and> var_changed r r = Inr False \<Longrightarrow>
   changed_loop vs cfg cfg acc = Inr acc"
  by (induction vs) auto

lemma changed_loop_result:
  "changed_loop vs cur orig acc = Inr S \<Longrightarrow>
   S = acc \<union> {v \<in> set vs. \<exists>c b. map_of cur v = Some c \<and> map_of orig v = Some b \<and>
                                  var_changed c b = Inr True}"
proof (induction vs arbitrary: acc)
  case Nil
  then show ?case by simp
next
  case (Cons v vs)
  from Cons.prems obtain c b ch where
    c: "map_of cur v = Some c" and b: "map_of orig v = Some b" and
    ch: "var_changed c b = Inr ch" and
    rest: "changed_loop vs cur orig (if ch then insert v acc else acc) = Inr S"
    by (auto split: option.splits sum.splits)
  from Cons.IH [OF rest] c b ch show ?case
    by (cases ch) auto
qed

lemma changed_loop_keys:
  "changed_loop vs cur orig acc = Inr S \<Longrightarrow> v \<in> set vs \<Longrightarrow> map_of orig v \<noteq> None"
  by (induction vs arbitrary: acc) (auto split: option.splits sum.splits)

lemma float_of_int_exact: "\<bar>i\<bar> < 2 ^ 53 \<Longrightarrow> float_of_int i = Inr (Finite (of_int i))"
  by (simp add: float_of_int_def Let_def bitlen_le_iff_power)

lemma float_of_int_overflow:
  assumes "2 ^ 1024 \<le> \<bar>i\<bar>"
  shows "float_of_int i = Inl OverflowError"
proof -
  define a where "a = \<bar>i\<bar>"
  define k where "k = bitlen a"
  define s where "s = nat (k - 53)"
  define q where "q = a div 2 ^ s"
  define q' where "q' = (if 2 ^ (s - 1) < a mod 2 ^ s \<or> (a mod 2 ^ s = 2 ^ (s - 1) \<and> odd q)
                         then q + 1 else q)"
  from assms have big: "2 ^ 1024 \<le> a" by (simp add: a_def)
  then have pos: "0 < a"
    by (rule less_le_trans [rotated]) simp
  from bitlen_bounds [OF pos] have lo: "2 ^ nat (k - 1) \<le> a" and hi: "a < 2 ^ nat k"
    by (simp_all add: k_def)
  have "1024 < nat k"
  proof (rule ccontr)
    assume "\<not> 1024 < nat k"
    then have "(2::int) ^ nat k \<le> 2 ^ 1024"
      by (intro power_increasing) simp_all
    with big hi show False by linarith
  qed
  then have k: "1025 \<le> k" by linarith
  then have s: "nat (k - 1) = s + 52" "972 \<le> s"
    by (simp_all add: s_def)
  have "(2::int) ^ 52 = 2 ^ (s + 52) div 2 ^ s"
    by (simp add: power_add)
  also have "\<dots> \<le> q"
    unfolding q_def using lo s(1) by (intro zdiv_mono1) simp_all
  finally have q: "2 ^ 52 \<le> q" .
  have "q \<le> q'" by (simp add: q'_def)
  with q have q52: "2 ^ 52 \<le> q'" by linarith
  have "(2::int) ^ 1024 \<le> 2 ^ (52 + s)"
    using s(2) by (intro power_increasing) simp_all
  also have "\<dots> = 2 ^ 52 * 2 ^ s"
    by (rule power_add)
  also have "\<dots> \<le> q' * 2 ^ s"
    using q52 by (intro mult_right_mono) simp_all
  finally have v: "2 ^ 1024 \<le> q' * 2 ^ s" .
  from k have "\<not> k \<le> 53" by simp
  with v show ?thesis
    unfolding float_of_int_def Let_def a_def [symmetric] k_def [symmetric] s_def [symmetric]
      q_def [symmetric] q'_def [symmetric]
    by (simp only: if_False if_True)
qed

lemma float_of_int_0: "float_of_int 0 = Inr (Finite 0)"
  by (simp add: float_of_int_def)

text \<open>
  Claim C1, as the code compares. Scalar inputs are compared as floats, and list inputs
  with \<open>!=\<close> on lists, which compares the elements with \<open>==\<close>: an integer and a float of the
  same value are equal there too. So, whatever else the two configurations hold, a
  \<open>single_value_fill\<close> variable whose input went from \<open>0\<close> to \<open>0.0\<close> is absent from the
  changed set, and a \<open>quarterly_values_fill\<close> variable whose input went from \<open>[0, 0]\<close> to
  \<open>[0.0, 0]\<close> (same quarters) is absent from it as well.
\<close>

theorem zero_edits_not_reported:
  assumes "get_changed_variables committed baseline = Inr S"
    and "map_of committed v = Some (PDict c)" and "map_of baseline v = Some (PDict b)"
    and "(map_of b ''method'' = Some (PStr ''single_value_fill'') \<and>
          map_of c ''method'' = Some (PStr ''single_value_fill'') \<and>
          map_of b ''quarters'' = Some PNone \<and> map_of c ''quarters'' = Some PNone \<and>
          map_of b ''input'' = Some (PInt 0) \<and> map_of c ''input'' = Some (PFloat (Finite 0)))
       \<or> (map_of b ''method'' = Some (PStr ''quarterly_values_fill'') \<and>
          map_of c ''method'' = Some (PStr ''quarterly_values_fill'') \<and>
          map_of b ''quarters'' = Some (PStr q) \<and> map_of c ''quarters'' = Some (PStr q) \<and>
          map_of b ''input'' = Some (PList [PInt 0, PInt 0]) \<and>
          map_of c ''input'' = Some (PList [PFloat (Finite 0), PInt 0]))"
  shows "v \<notin> S"
proof -
  from assms(4) have "var_changed (PDict c) (PDict b) = Inr False"
    by (auto simp: var_changed_def py_getitem_def is_list_def py_float_def float_of_int_0
        py_ne_def float_eq_def is_nan_def)
  with assms(2,3) changed_loop_result [OF assms(1) [unfolded get_changed_variables_def]]
  show ?thesis by auto
qed

theorem zero_edits_not_reported_witness:
  "get_changed_variables
     [(''A'', variable_record ''c'' ''single_value_fill'' (PFloat (Finite 0)) PNone),
      (''B'', variable_record ''c'' ''quarterly_values_fill'' (PList [PFloat (Finite 0), PInt 0])
                (PStr ''2024Q1:2024Q2'')),
      (''C'', variable_record ''c'' ''single_value_fill'' (PInt 7) PNone)]
     [(''A'', variable_record ''c'' ''single_value_fill'' (PInt 0) PNone),
      (''B'', variable_record ''c'' ''quarterly_values_fill'' (PList [PInt 0, PInt 0])
                (PStr ''2024Q1:2024Q2'')),
      (''C'', variable_record ''c'' ''single_value_fill'' (PInt 8) PNone)] = Inr {''C''} \<and>
   ''A'' \<notin> {''C''} \<and> ''B'' \<notin> {''C''}"
proof -
  let ?c = "[(''A'', variable_record ''c'' ''single_value_fill'' (PFloat (Finite 0)) PNone),
      (''B'', variable_record ''c'' ''quarterly_values_fill'' (PList [PFloat (Finite 0), PInt 0])
                (PStr ''2024Q1:2024Q2'')),
      (''C'', variable_record ''c'' ''single_value_fill'' (PInt 7) PNone)]"
  let ?b = "[(''A'', variable_record ''c'' ''single_value_fill'' (PInt 0) PNone),
      (''B'', variable_record ''c'' ''quarterly_values_fill'' (PList [PInt 0, PInt 0])
                (PStr ''2024Q1:2024Q2'')),
      (''C'', variable_record ''c'' ''single_value_fill'' (PInt 8) PNone)]"
  have r: "get_changed_variables ?c ?b = Inr {''C''}"
    by (simp add: get_changed_variables_def variable_record_def var_changed_def py_getitem_def
        is_list_def py_float_def float_of_int_exact py_ne_def float_eq_def is_nan_def)
  have a: "''A'' \<notin> {''C''}"
    by (rule zero_edits_not_reported [OF r, of "''A''" _ _ "''x''"])
       (simp add: variable_record_def)+
  have b: "''B'' \<notin> {''C''}"
    by (rule zero_edits_not_reported [OF r, of "''B''" _ _ "''2024Q1:2024Q2''"])
       (simp add: variable_record_def)+
  from r a b show ?thesis by blast
qed

text \<open>
  The list edit from \<open>[0, 0]\<close> to \<open>[0.0, 0]\<close> alone: the changed set is empty.
\<close>

theorem list_zero_edit_counterexample:
  "get_changed_variables
     [(''V'', variable_record ''c'' ''quarterly_values_fill'' (PList [PFloat (Finite 0), PInt 0])
                (PStr ''2024Q1:2024Q2''))]
     [(''V'', variable_record ''c'' ''quarterly_values_fill'' (PList [PInt 0, PInt 0])
                (PStr ''2024Q1:2024Q2''))] = Inr {}"
  by (simp add: get_changed_variables_def variable_record_def var_changed_def py_getitem_def
      is_list_def py_ne_def float_eq_def is_nan_def)

text \<open>
  A variable of the committed configuration that the baseline lacks: the lookup
  \<open>original_data[var_name]\<close> raises, for this variable or an error comes earlier.
\<close>

lemma missing_baseline_key_raises:
  assumes "v \<in> fst ` set committed" and "v \<notin> fst ` set baseline"
  shows "\<exists>e. get_changed_variables committed baseline = Inl e"
proof (cases "get_changed_variables committed baseline")
  case (Inl e)
  then show ?thesis by blast
next
  case (Inr S)
  then have "map_of baseline v \<noteq> None"
    using assms(1) changed_loop_keys [of "map fst committed" committed baseline "{}" S v]
    by (simp add: get_changed_variables_def)
  with assms(2) show ?thesis
    by (simp add: map_of_eq_None_iff)
qed

text \<open>
  Claim C2 at a committed configuration with the one variable \<open>X\<close> and an empty baseline
  (what \<open>load_spec_file\<close> returns when the baseline file is missing): the code raises
  \<open>KeyError: 'X'\<close> where the claim wants \<open>X\<close> reported as changed.
\<close>

theorem added_variable_key_error:
  "get_changed_variables
     [(''X'', variable_record ''c'' ''single_value_fill'' (PInt 1) PNone)] [] =
   Inl (KeyError ''X'')"
  by (simp add: get_changed_variables_def)

text \<open>
  Claim C9, on the configurations the loop body accepts. When every record has the fields
  \<open>method\<close>, \<open>quarters\<close> and \<open>input\<close>, the values of \<open>method\<close> and \<open>quarters\<close> are not NaN, and
  every input is a list (whatever it holds, NaN included) or a number that \<open>float()\<close>
  converts to something other than NaN, \<open>get_changed_variables(cfg, cfg)\<close> is the empty set.
\<close>

theorem unchanged_against_itself:
  assumes "\<forall>(v, r)\<in>set cfg. comparable_record r"
  shows "get_changed_variables cfg cfg = Inr {}"
proof -
  have "\<exists>r. map_of cfg v = Some r \<and> var_changed r r = Inr False"
    if "v \<in> set (map fst cfg)" for v
  proof -
    from that obtain r where r: "map_of cfg v = Some r"
      by (cases "map_of cfg v") (auto simp: map_of_eq_None_iff)
    then have "(v, r) \<in> set cfg" by (rule map_of_SomeD)
    with assms have "comparable_record r" by auto
    with r show ?thesis by (auto intro: var_changed_self)
  qed
  then show ?thesis
    unfolding get_changed_variables_def by (intro changed_loop_unchanged) blast
qed

theorem unchanged_against_itself_witness:
  "get_changed_variables
     [(''A'', variable_record ''c'' ''single_value_fill'' (PFloat (Finite (1 / 2))) PNone),
      (''B'', variable_record ''d'' ''quarterly_values_fill'' (PList [PInt 1, PFloat (NaN 0)])
                (PStr ''2024Q1:2024Q2''))]
     [(''A'', variable_record ''c'' ''single_value_fill'' (PFloat (Finite (1 / 2))) PNone),
      (''B'', variable_record ''d'' ''quarterly_values_fill'' (PList [PInt 1, PFloat (NaN 0)])
                (PStr ''2024Q1:2024Q2''))] = Inr {}"
  by (rule unchanged_against_itself)
     (simp add: comparable_record_def variable_record_def py_getitem_def is_list_def py_float_def
        nan_value_def is_nan_def)

text \<open>
  A scalar input NaN differs from itself, a scalar input \<open>10 ** 400\<close> is an integer that
  \<open>float()\<close> refuses, and a \<open>quarters\<close> value NaN differs from itself: the first configuration
  has its variable in the changed set, the second raises OverflowError, the third has its
  variable in the changed set.
\<close>

theorem nan_changed_against_itself_counterexample:
  "get_changed_variables
     [(''X'', variable_record ''c'' ''single_value_fill'' (PFloat (NaN 0)) PNone)]
     [(''X'', variable_record ''c'' ''single_value_fill'' (PFloat (NaN 0)) PNone)] = Inr {''X''} \<and>
   get_changed_variables
     [(''X'', variable_record ''c'' ''single_value_fill'' (PInt (10 ^ 400)) PNone)]
     [(''X'', variable_record ''c'' ''single_value_fill'' (PInt (10 ^ 400)) PNone)] =
   Inl OverflowError \<and>
   get_changed_variables
     [(''X'', variable_record ''c'' ''quarterly_values_fill'' (PList [PInt 1]) (PFloat (NaN 0)))]
     [(''X'', variable_record ''c'' ''quarterly_values_fill'' (PList [PInt 1]) (PFloat (NaN 0)))] =
   Inr {''X''}"
  by (simp add: get_changed_variables_def variable_record_def var_changed_def py_getitem_def
      is_list_def py_float_def float_of_int_overflow py_ne_def float_eq_def is_nan_def)

text \<open>
  Claim C10. Every name of the changed set is a key of the committed configuration; a
  variable of the baseline that the committed configuration lacks is never in it.
\<close>

theorem changed_within_committed:
  assumes "get_changed_variables committed baseline = Inr S"
  shows "S \<subseteq> fst ` set committed \<and>
         (\<forall>v. v \<in> fst ` set baseline \<and> v \<notin> fst ` set committed \<longrightarrow> v \<notin> S)"
  using changed_loop_result [OF assms [unfolded get_changed_variables_def]]
  by auto

theorem changed_within_committed_witness:
  "get_changed_variables
     [(''A'', variable_record ''c'' ''single_value_fill'' (PInt 2) PNone)]
     [(''A'', variable_record ''c'' ''single_value_fill'' (PInt 1) PNone),
      (''B'', variable_record ''c'' ''single_value_fill'' (PInt 1) PNone)] = Inr {''A''} \<and>
   {''A''} \<subseteq> fst ` set [(''A'', variable_record ''c'' ''single_value_fill'' (PInt 2) PNone)] \<and>
   ''B'' \<notin> {''A''}"
proof -
  let ?c = "[(''A'', variable_record ''c'' ''single_value_fill'' (PInt 2) PNone)]"
  let ?b = "[(''A'', variable_record ''c'' ''single_value_fill'' (PInt 1) PNone),
      (''B'', variable_record ''c'' ''single_value_fill'' (PInt 1) PNone)]"
  have r: "get_changed_variables ?c ?b = Inr {''A''}"
    by (simp add: get_changed_variables_def variable_record_def var_changed_def py_getitem_def
        is_list_def py_float_def float_of_int_exact py_ne_def float_eq_def is_nan_def)
  from changed_within_committed [OF r] have "{''A''} \<subseteq> fst ` set ?c" and "''B'' \<notin> {''A''}"
    by simp_all
  with r show ?thesis by blast
qed
section \<open>Properties of loading, recovery and the final save\<close>

lemma paths_distinct:
  "TEMP_FILE \<noteq> BASELINE_SPEC" "BASELINE_SPEC \<noteq> TEMP_FILE"
  "''config_'' @ ts @ ''.json'' \<noteq> TEMP_FILE" "TEMP_FILE \<noteq> ''config_'' @ ts @ ''.json''"
  by (simp_all add: TEMP_FILE_def BASELINE_SPEC_def)

text \<open>
  \<open>load_spec_file\<close> fails exactly when \<open>open\<close> or \<open>json.load\<close> raises for a file that exists,
  and then with that exception; it never touches the files.
\<close>

lemma load_spec_file_failures:
  "snd (load_spec_file w) = Inl e \<longleftrightarrow> files w BASELINE_SPEC = Some (Unloadable e)"
  "files (fst (load_spec_file w)) = files w"
  by (auto simp: load_spec_file_def st_error_def split: option.splits json_file.splits)

text \<open>
  Claim C4, as the code loads. When the baseline file does not exist, \<open>load_spec_file\<close> does
  not fail: it shows the message "Baseline specification (dummy_spec.json) not found!" and
  returns the empty configuration. When the file parses, it does not fail either, whatever
  the records hold or lack: the document is returned as it is, nothing is checked.
\<close>

theorem load_spec_file_unvalidated:
  "(files w BASELINE_SPEC = None \<longrightarrow>
      load_spec_file w =
        (w\<lparr>ui := ui w @ [UiError ''Baseline specification (dummy_spec.json) not found!'']\<rparr>,
         Inr (PDict []))) \<and>
   (\<forall>doc. files w BASELINE_SPEC = Some (Parsed doc) \<longrightarrow> load_spec_file w = (w, Inr doc))"
  by (simp add: load_spec_file_def st_error_def BASELINE_SPEC_def)


text \<open>
  A snapshot file whose text is not valid JSON (JSONDecodeError): the session start
  behaves as it does in the same world without the snapshot file; with a baseline file that
  parses, it returns with the snapshot file deleted, nothing shown (no prompt, no error),
  and both \<open>st.session_state.data\<close> and \<open>st.session_state.original_data\<close> (the fields
  \<open>st_data\<close> and \<open>st_original_data\<close>) seeded from the baseline.
\<close>

lemma invalid_json_snapshot_fresh_start:
  assumes "files w TEMP_FILE = Some (Unloadable JSONDecodeError)"
    and "\<not> initialized (session w)"
  shows "session_start w = session_start (os_remove TEMP_FILE w) \<and>
         (\<forall>spec. files w BASELINE_SPEC = Some (Parsed spec) \<longrightarrow>
            session_start w =
              (w\<lparr>files := (files w)(TEMP_FILE := None),
                 session := (session w)\<lparr>st_data := Some spec, st_original_data := Some spec,
                                        initialized := True\<rparr>\<rparr>,
               Returned ()))"
  using assms
  by (simp add: session_start_def check_for_temp_file_def os_remove_def load_spec_file_def
      paths_distinct)

text \<open>
  A snapshot file that fails to load with any other exception: the exception leaves
  \<open>check_for_temp_file\<close> and the session start, and the world is what it was, the snapshot
  file included.
\<close>

lemma unloadable_snapshot_raises:
  assumes "files w TEMP_FILE = Some (Unloadable e)" and "e \<noteq> JSONDecodeError"
    and "\<not> initialized (session w)"
  shows "session_start w = (w, Raised e)"
  using assms
  by (simp add: session_start_def check_for_temp_file_def)

text \<open>
  Claim C6 at a snapshot file whose bytes are not UTF-8 text, on the first run of a session
  with a good baseline file: \<open>json.load\<close> raises UnicodeDecodeError, which the handler for
  \<open>json.JSONDecodeError\<close> does not catch. The session start ends with that exception, the
  corrupt file is still there and nothing was seeded, where the claim wants the file
  deleted and a fresh start.
\<close>

theorem undecodable_snapshot_crashes:
  "session_start
     \<lparr>files = [TEMP_FILE \<mapsto> Unloadable UnicodeDecodeError,
               BASELINE_SPEC \<mapsto> Parsed (PDict [])],
      write_outcome = (\<lambda>p. Written), now = ''20240101_120000'', clicked = (\<lambda>k. False),
      ui = [], session = new_session\<rparr> =
   (\<lparr>files = [TEMP_FILE \<mapsto> Unloadable UnicodeDecodeError,
               BASELINE_SPEC \<mapsto> Parsed (PDict [])],
      write_outcome = (\<lambda>p. Written), now = ''20240101_120000'', clicked = (\<lambda>k. False),
      ui = [], session = new_session\<rparr>,
    Raised UnicodeDecodeError)"
  by (simp add: session_start_def check_for_temp_file_def new_session_def TEMP_FILE_def
      BASELINE_SPEC_def)

theorem load_spec_file_unvalidated_witness:
  "load_spec_file
     \<lparr>files = [BASELINE_SPEC \<mapsto>
                Parsed (PDict [(''X'', variable_record ''c'' ''single_value_fill'' (PInt 1) PNone)])],
      write_outcome = (\<lambda>p. Written), now = ''20240101_120000'', clicked = (\<lambda>k. False),
      ui = [], session = new_session\<rparr> =
   (\<lparr>files = [BASELINE_SPEC \<mapsto>
                Parsed (PDict [(''X'', variable_record ''c'' ''single_value_fill'' (PInt 1) PNone)])],
      write_outcome = (\<lambda>p. Written), now = ''20240101_120000'', clicked = (\<lambda>k. False),
      ui = [], session = new_session\<rparr>,
    Inr (PDict [(''X'', variable_record ''c'' ''single_value_fill'' (PInt 1) PNone)]))"
  using load_spec_file_unvalidated
    [of "\<lparr>files = [BASELINE_SPEC \<mapsto>
                Parsed (PDict [(''X'', variable_record ''c'' ''single_value_fill'' (PInt 1) PNone)])],
      write_outcome = (\<lambda>p. Written), now = ''20240101_120000'', clicked = (\<lambda>k. False),
      ui = [], session = new_session\<rparr>"]
  by simp

text \<open>
  With no baseline file the result is the empty configuration, and a record that has only
  a \<open>category\<close> is returned as loaded.
\<close>

theorem load_spec_file_no_error_counterexample:
  "snd (load_spec_file
     \<lparr>files = Map.empty, write_outcome = (\<lambda>p. Written), now = ''20240101_120000'',
      clicked = (\<lambda>k. False), ui = [], session = new_session\<rparr>) = Inr (PDict []) \<and>
   snd (load_spec_file
     \<lparr>files = [BASELINE_SPEC \<mapsto> Parsed (PDict [(''X'', PDict [(''category'', PStr ''c'')])])],
      write_outcome = (\<lambda>p. Written), now = ''20240101_120000'', clicked = (\<lambda>k. False),
      ui = [], session = new_session\<rparr>) =
     Inr (PDict [(''X'', PDict [(''category'', PStr ''c'')])])"
  by (simp add: load_spec_file_def)

section \<open>Properties of the batch mutator\<close>

lemma apply_to_variable_quarterly:
  assumes "map_of settings ''method'' = Some (HStr ''quarterly_values_fill'')"
    and "map_of settings ''input'' = Some (HList s)"
    and "apply_to_variable v settings data h = Inr (d, h')"
  shows "h' = h\<lparr>cells := (cells h)(next_addr h := cells h s), next_addr := Suc (next_addr h)\<rparr>"
    and "input_of d v = Some (HList (next_addr h))"
    and "n \<noteq> v \<Longrightarrow> input_of d n = input_of data n"
  using assms
  by (auto simp: apply_to_variable_def get_setting_def set_field_def list_copy_def input_of_def
      update_conv' split: option.splits sum.splits if_splits)

lemma apply_settings_quarterly:
  assumes "map_of settings ''method'' = Some (HStr ''quarterly_values_fill'')"
    and "map_of settings ''input'' = Some (HList s)"
    and "s < next_addr h"
    and "apply_settings_to_variables vs settings data h = Inr (data', h')"
  shows "next_addr h \<le> next_addr h' \<and>
         (\<forall>a<next_addr h. cells h' a = cells h a) \<and>
         (\<forall>n. n \<notin> set vs \<longrightarrow> input_of data' n = input_of data n) \<and>
         (\<forall>n\<in>set vs. \<exists>p. input_of data' n = Some (HList p) \<and> next_addr h \<le> p \<and>
                          p < next_addr h' \<and> cells h' p = cells h s) \<and>
         (\<forall>n\<in>set vs. \<forall>m\<in>set vs. n \<noteq> m \<longrightarrow> input_of data' n \<noteq> input_of data' m)"
  using assms(3,4)
proof (induction vs arbitrary: data h)
  case Nil
  then show ?case by simp
next
  case (Cons v vs)
  from Cons.prems(2) obtain d1 h1 where
    step: "apply_to_variable v settings data h = Inr (d1, h1)" and
    rest: "apply_settings_to_variables vs settings d1 h1 = Inr (data', h')"
    by (auto split: sum.splits)
  note q = apply_to_variable_quarterly [OF assms(1,2) step]
  from q(1) have n1: "next_addr h1 = Suc (next_addr h)" and
    c1: "cells h1 = (cells h)(next_addr h := cells h s)"
    by simp_all
  from Cons.prems(1) n1 have s1: "s < next_addr h1" by simp
  note ih = Cons.IH [OF s1 rest]
  from ih have mono: "next_addr h1 \<le> next_addr h'"
    by (rule conjunct1)
  from ih have keep: "cells h' a = cells h1 a" if "a < next_addr h1" for a
    using that by (elim conjE) simp
  from ih have frame: "input_of data' n = input_of d1 n" if "n \<notin> set vs" for n
    using that by (elim conjE) simp
  from ih have fresh: "\<exists>p. input_of data' n = Some (HList p) \<and> next_addr h1 \<le> p \<and>
                          p < next_addr h' \<and> cells h' p = cells h1 s" if "n \<in> set vs" for n
    using that by (elim conjE) simp
  from ih have apart: "input_of data' n \<noteq> input_of data' m"
    if "n \<in> set vs" "m \<in> set vs" "n \<noteq> m" for n m
    using that by (elim conjE) simp
  have s_same: "cells h1 s = cells h s"
    using Cons.prems(1) by (simp add: c1)
  have A: "next_addr h \<le> next_addr h'"
    using mono n1 by simp
  have B: "cells h' a = cells h a" if "a < next_addr h" for a
    using that keep [of a] n1 by (simp add: c1)
  have C: "input_of data' n = input_of data n" if "n \<notin> set (v # vs)" for n
    using that frame [of n] q(3) [of n] by simp
  have v_new: "input_of data' v = Some (HList (next_addr h))" if "v \<notin> set vs"
    using that frame [of v] q(2) by simp
  have D: "\<exists>p. input_of data' n = Some (HList p) \<and> next_addr h \<le> p \<and>
               p < next_addr h' \<and> cells h' p = cells h s" if "n \<in> set (v # vs)" for n
  proof (cases "n \<in> set vs")
    case True
    from fresh [OF True] show ?thesis
      using n1 s_same by auto
  next
    case False
    with that have nv: "n = v" by simp
    have "cells h' (next_addr h) = cells h s"
      using keep [of "next_addr h"] n1 by (simp add: c1)
    with False nv v_new mono n1 show ?thesis by auto
  qed
  have E: "input_of data' n \<noteq> input_of data' m"
    if "n \<in> set (v # vs)" "m \<in> set (v # vs)" "n \<noteq> m" for n m
  proof -
    have old_new: "input_of data' v \<noteq> input_of data' k" if "v \<notin> set vs" "k \<in> set vs" for k
    proof -
      from fresh [OF that(2)] obtain p where
        "input_of data' k = Some (HList p)" "next_addr h1 \<le> p" by blast
      with v_new [OF that(1)] n1 show ?thesis by auto
    qed
    show ?thesis
    proof (cases "n \<in> set vs \<and> m \<in> set vs")
      case True
      with that(3) apart [of n m] show ?thesis by simp
    next
      case False
      with that consider (nv) "n = v" "v \<notin> set vs" "m \<in> set vs"
        | (mv) "m = v" "v \<notin> set vs" "n \<in> set vs"
        by auto
      then show ?thesis
      proof cases
        case nv
        from old_new [OF nv(2,3)] nv(1) show ?thesis by simp
      next
        case mv
        from old_new [OF mv(2,3)] have "input_of data' n \<noteq> input_of data' v"
          by (rule not_sym)
        with mv(1) show ?thesis by simp
      qed
    qed
  qed
  show ?case
  proof (intro conjI allI impI ballI)
    show "next_addr h \<le> next_addr h'" by (rule A)
  next
    fix a assume "a < next_addr h"
    then show "cells h' a = cells h a" by (rule B)
  next
    fix n assume "n \<notin> set (v # vs)"
    then show "input_of data' n = input_of data n" by (rule C)
  next
    fix n assume "n \<in> set (v # vs)"
    then show "\<exists>p. input_of data' n = Some (HList p) \<and> next_addr h \<le> p \<and>
               p < next_addr h' \<and> cells h' p = cells h s" by (rule D)
  next
    fix n m assume "n \<in> set (v # vs)" "m \<in> set (v # vs)" "n \<noteq> m"
    then show "input_of data' n \<noteq> input_of data' m" by (rule E)
  qed
qed

text \<open>
  Claim C7. With a settings payload of method \<open>quarterly_values_fill\<close> whose input is a list,
  every selected variable ends up with a list object of its own: a new object with the
  elements of the payload's list, different from the payload's list and from the input
  list of every other variable, selected or not. An assignment into the list of a selected
  variable therefore leaves the input list of every other variable as it was.
  (Lists already stored in \<open>data\<close> live at addresses in use.)
\<close>

theorem batch_inputs_independent:
  assumes "map_of settings ''method'' = Some (HStr ''quarterly_values_fill'')"
    and "map_of settings ''input'' = Some (HList s)" and "s < next_addr h"
    and "\<forall>n q. input_of data n = Some (HList q) \<longrightarrow> q < next_addr h"
    and "apply_settings_to_variables selected_vars settings data h = Inr (data', h')"
    and "a \<in> set selected_vars" and "b \<noteq> a"
  shows "\<exists>p. input_of data' a = Some (HList p) \<and> p \<noteq> s \<and> cells h' p = cells h s \<and>
             input_of data' b \<noteq> Some (HList p) \<and>
             (\<forall>q i x h''. input_of data' b = Some (HList q) \<and> list_setitem p i x h' = Inr h''
                \<longrightarrow> cells h'' q = cells h' q)"
proof -
  note inv = apply_settings_quarterly [OF assms(1,2,3,5)]
  note frame = inv [THEN conjunct2, THEN conjunct2, THEN conjunct1, rule_format]
  note fresh = inv [THEN conjunct2, THEN conjunct2, THEN conjunct2, THEN conjunct1, rule_format]
  note apart = inv [THEN conjunct2, THEN conjunct2, THEN conjunct2, THEN conjunct2, rule_format]
  from fresh [OF assms(6)] obtain p where
    p: "input_of data' a = Some (HList p)" "next_addr h \<le> p" "cells h' p = cells h s"
    by blast
  have sep: "input_of data' b \<noteq> Some (HList p)"
  proof (cases "b \<in> set selected_vars")
    case True
    from apart [OF assms(6) True] assms(7) have "input_of data' a \<noteq> input_of data' b"
      by simp
    with p(1) show ?thesis by simp
  next
    case False
    then have same: "input_of data' b = input_of data b" by (rule frame)
    show ?thesis
    proof
      assume "input_of data' b = Some (HList p)"
      with same have "input_of data b = Some (HList p)" by simp
      with assms(4) have "p < next_addr h" by blast
      with p(2) show False by simp
    qed
  qed
  have frame_b: "cells h'' q = cells h' q"
    if "input_of data' b = Some (HList q) \<and> list_setitem p i x h' = Inr h''" for q i x h''
  proof -
    from that sep have "q \<noteq> p" by auto
    with that show ?thesis
      by (auto simp: list_setitem_def split: if_splits)
  qed
  from p(2) assms(3) have ps: "p \<noteq> s" by simp
  show ?thesis
  proof (intro exI conjI allI impI)
    show "input_of data' a = Some (HList p)" by (rule p(1))
    show "p \<noteq> s" by (rule ps)
    show "cells h' p = cells h s" by (rule p(3))
    show "input_of data' b \<noteq> Some (HList p)" by (rule sep)
    fix q i x h''
    assume "input_of data' b = Some (HList q) \<and> list_setitem p i x h' = Inr h''"
    then show "cells h'' q = cells h' q" by (rule frame_b)
  qed
qed

theorem batch_inputs_independent_witness:
  "\<exists>d h' p.
     apply_settings_to_variables [''A'', ''B'']
       [(''method'', HStr ''quarterly_values_fill''), (''input'', HList 0),
        (''quarters'', HStr ''2024Q1:2024Q4'')]
       [(''A'', [(''category'', HStr ''c''), (''method'', HStr ''quarterly_values_fill''),
                (''input'', HList 1), (''quarters'', HStr ''2024Q1:2024Q2'')]),
        (''B'', [(''category'', HStr ''c''), (''method'', HStr ''single_value_fill''),
                (''input'', HInt 0), (''quarters'', HNone)])]
       \<lparr>cells = (\<lambda>a. [])(0 := [HInt 1, HInt 2, HInt 3, HInt 4], 1 := [HInt 0, HInt 0]),
        next_addr = 2\<rparr> = Inr (d, h') \<and>
     input_of d ''A'' = Some (HList p) \<and> input_of d ''B'' \<noteq> Some (HList p) \<and> p \<noteq> 0 \<and>
     cells h' p = [HInt 1, HInt 2, HInt 3, HInt 4]"
proof -
  let ?settings = "[(''method'', HStr ''quarterly_values_fill''), (''input'', HList 0),
        (''quarters'', HStr ''2024Q1:2024Q4'')]"
  let ?data = "[(''A'', [(''category'', HStr ''c''), (''method'', HStr ''quarterly_values_fill''),
                (''input'', HList 1), (''quarters'', HStr ''2024Q1:2024Q2'')]),
        (''B'', [(''category'', HStr ''c''), (''method'', HStr ''single_value_fill''),
                (''input'', HInt 0), (''quarters'', HNone)])]"
  let ?h = "\<lparr>cells = (\<lambda>a. [])(0 := [HInt 1, HInt 2, HInt 3, HInt 4], 1 := [HInt 0, HInt 0]),
        next_addr = 2\<rparr>"
  obtain d h' where run: "apply_settings_to_variables [''A'', ''B''] ?settings ?data ?h = Inr (d, h')"
    by (simp add: apply_to_variable_def get_setting_def set_field_def list_copy_def)
  have m: "map_of ?settings ''method'' = Some (HStr ''quarterly_values_fill'')" by simp
  have i: "map_of ?settings ''input'' = Some (HList 0)" by simp
  have s: "0 < next_addr ?h" by simp
  have wf: "\<forall>n q. input_of ?data n = Some (HList q) \<longrightarrow> q < next_addr ?h"
    by (auto simp: input_of_def split: if_splits)
  have a: "''A'' \<in> set [''A'', ''B'']" by simp
  have b: "''B'' \<noteq> ''A''" by simp
  from batch_inputs_independent [OF m i s wf run a b] obtain p where
    "input_of d ''A'' = Some (HList p)" "p \<noteq> 0" "cells h' p = cells ?h 0"
    "input_of d ''B'' \<noteq> Some (HList p)"
    by blast
  with run show ?thesis
    by (intro exI [of _ d] exI [of _ h'] exI [of _ p]) simp
qed

end
